theory Spec2Isabelle
  imports Main
begin

section \<open>JavaScript values used by the exporter\<close>

text \<open>
  Strings are lists of code units; the model covers strings whose code units are below
  256, one \<^typ>\<open>char\<close> each. Numbers that reach the exporter are integers read by
  \<open>parseInt\<close>, the not-a-number value, or the result of \<open>Math.max\<close>, which is negative
  infinity on an empty argument list. Integers are taken exactly, as JavaScript does for
  magnitudes below \<open>2^53\<close>.
\<close>

datatype js_number = NegInfinity | Finite int

text \<open>The relation \<open>a < b\<close> of JavaScript on the numbers above.\<close>

fun js_less :: "js_number \<Rightarrow> js_number \<Rightarrow> bool" where
  "js_less (Finite a) (Finite b) = (a < b)"
| "js_less NegInfinity (Finite b) = True"
| "js_less a NegInfinity = False"

text \<open>\<open>x + 1\<close>: negative infinity stays negative infinity.\<close>

fun js_plus_one :: "js_number \<Rightarrow> js_number" where
  "js_plus_one NegInfinity = NegInfinity"
| "js_plus_one (Finite a) = Finite (a + 1)"

text \<open>
  \<open>Math.max.apply(Math, xs)\<close>: the running maximum starts at negative infinity and is
  replaced by every argument greater than it.
\<close>

fun Math_max_from :: "js_number \<Rightarrow> nat list \<Rightarrow> js_number" where
  "Math_max_from highest [] = highest"
| "Math_max_from highest (n # ns) =
     Math_max_from (if js_less highest (Finite (int n)) then Finite (int n) else highest) ns"

definition Math_max :: "nat list \<Rightarrow> js_number" where
  "Math_max ns = Math_max_from NegInfinity ns"

text \<open>
  White space as \<open>String.prototype.trim\<close> and \<open>parseInt\<close> see it, among code units
  below 256: tab, line feed, vertical tab, form feed, carriage return, space and the
  no-break space.
\<close>

definition is_white_space :: "char \<Rightarrow> bool" where
  "is_white_space c = (of_char c \<in> {9, 10, 11, 12, 13, 32, 160 :: nat})"

definition trim :: "string \<Rightarrow> string" where
  "trim s = rev (dropWhile is_white_space (rev (dropWhile is_white_space s)))"

text \<open>The value of a digit in radix 10 or 16, if the code unit is one.\<close>

definition digit_value :: "nat \<Rightarrow> char \<Rightarrow> nat option" where
  "digit_value R c =
     (let n = (of_char c :: nat) in
      if 48 \<le> n \<and> n \<le> 57 then Some (n - 48)
      else if R = 16 \<and> 97 \<le> n \<and> n \<le> 102 then Some (n - 87)
      else if R = 16 \<and> 65 \<le> n \<and> n \<le> 70 then Some (n - 55)
      else None)"

fun digits_value :: "nat \<Rightarrow> nat \<Rightarrow> string \<Rightarrow> nat" where
  "digits_value R acc [] = acc"
| "digits_value R acc (c # cs) =
     digits_value R (acc * R + (case digit_value R c of Some d \<Rightarrow> d | None \<Rightarrow> 0)) cs"

text \<open>
  \<open>parseInt(s)\<close> with no radix: leading white space is skipped, a sign is read, a
  prefix \<open>0x\<close> or \<open>0X\<close> selects radix 16, and the longest run of digits is the value.
  With no digit the result is not-a-number, here \<open>None\<close>.
\<close>

definition parseInt :: "string \<Rightarrow> int option" where
  "parseInt inputString =
     (let S = dropWhile is_white_space inputString;
          sign = (if take 1 S = ''-'' then - 1 else 1 :: int);
          S1 = (if take 1 S = ''+'' \<or> take 1 S = ''-'' then drop 1 S else S);
          hex = (take 2 S1 = ''0x'' \<or> take 2 S1 = ''0X'');
          R = (if hex then 16 else 10 :: nat);
          S2 = (if hex then drop 2 S1 else S1);
          Z = takeWhile (\<lambda>c. digit_value R c \<noteq> None) S2
      in if Z = [] then None else Some (sign * int (digits_value R 0 Z)))"

text \<open>The decimal text of an integer, as a template literal prints a number.\<close>

definition digit_char :: "nat \<Rightarrow> char" where
  "digit_char d = ''0123456789'' ! d"

fun nat_to_string :: "nat \<Rightarrow> string" where
  "nat_to_string n =
     (if n < 10 then [digit_char n] else nat_to_string (n div 10) @ [digit_char (n mod 10)])"

declare nat_to_string.simps [simp del]

definition number_to_string :: "int \<Rightarrow> string" where
  "number_to_string v =
     (if v < 0 then ''-'' @ nat_to_string (nat (- v)) else nat_to_string (nat v))"

section \<open>The board as \<open>run\<close> builds it\<close>

record message =
  "text" :: string
  voteCount :: int

record column =
  columnTitle :: string
  messages :: "message list"

record board =
  title :: string
  columns :: "column list"

section \<open>The text file: \<open>parseTextFile\<close>\<close>

text \<open>The loop over the messages of one column, appending a line for each.\<close>

fun text_messages_loop :: "message list \<Rightarrow> string \<Rightarrow> string" where
  "text_messages_loop [] parsedText = parsedText"
| "text_messages_loop (message # rest) parsedText =
     text_messages_loop rest
       (parsedText @ ''- '' @ text message @ '' ('' @ number_to_string (voteCount message)
          @ '') \<newline>'')"

text \<open>
  The loop over the columns: the header and the closing line feed are appended only when
  \<open>messages.length\<close> is not zero.
\<close>

fun text_columns_loop :: "column list \<Rightarrow> string \<Rightarrow> string" where
  "text_columns_loop [] parsedText = parsedText"
| "text_columns_loop (col # rest) parsedText =
     (let parsedText1 =
            (if length (messages col) \<noteq> 0 then parsedText @ columnTitle col @ '' \<newline>''
             else parsedText);
          parsedText2 = text_messages_loop (messages col) parsedText1;
          parsedText3 =
            (if length (messages col) \<noteq> 0 then parsedText2 @ ''\<newline>'' else parsedText2)
      in text_columns_loop rest parsedText3)"

definition parseTextFile :: "string \<Rightarrow> column list \<Rightarrow> string" where
  "parseTextFile boardTitle columnData =
     text_columns_loop columnData (boardTitle @ '' \<newline>\<newline>'')"

section \<open>The CSV file: \<open>parseCSV\<close>\<close>

text \<open>
  \<open>columnData[colNum].messages[i - 1]\<close>: reading an array past its end gives
  \<open>undefined\<close>, here \<open>None\<close>.
\<close>

definition array_get :: "'a list \<Rightarrow> nat \<Rightarrow> 'a option" where
  "array_get xs k = (if k < length xs then Some (xs ! k) else None)"

text \<open>
  The inner loop over \<open>colNum\<close>, for the row \<open>i\<close>: row 0 takes the column titles, a
  later row the message at index \<open>i - 1\<close> of each column, or nothing where there is
  none; every cell is closed by a comma.
\<close>

fun csv_cells_loop :: "nat \<Rightarrow> column list \<Rightarrow> string \<Rightarrow> string" where
  "csv_cells_loop i [] parsedText = parsedText"
| "csv_cells_loop i (col # rest) parsedText =
     csv_cells_loop i rest
       (if i = 0 then parsedText @ columnTitle col @ '',''
        else (case array_get (messages col) (i - 1) of
                None \<Rightarrow> parsedText @ '',''
              | Some message \<Rightarrow>
                  parsedText @ text message @ '' ('' @ number_to_string (voteCount message)
                    @ ''),''))"

text \<open>The iterations the outer loop still has to make from \<open>i\<close>.\<close>

fun rows_left :: "js_number \<Rightarrow> nat \<Rightarrow> nat" where
  "rows_left NegInfinity i = 0"
| "rows_left (Finite n) i = nat n - i"

text \<open>
  The outer loop \<open>for (let i = 0; i < max_rows; i++)\<close>: one row of cells, then the
  carriage return and line feed.
\<close>

function csv_rows_loop :: "column list \<Rightarrow> js_number \<Rightarrow> nat \<Rightarrow> string \<Rightarrow> string" where
  "csv_rows_loop columnData max_rows i parsedText =
     (if js_less (Finite (int i)) max_rows
      then csv_rows_loop columnData max_rows (Suc i)
             (csv_cells_loop i columnData parsedText @ [CHR 0x0D, CHR 0x0A])
      else parsedText)"
  by pat_completeness auto
termination
proof (relation "measure (\<lambda>(columnData, max_rows, i, parsedText). rows_left max_rows i)")
  show "wf (measure (\<lambda>(columnData, max_rows, i, parsedText). rows_left max_rows i))"
    by simp
next
  fix columnData :: "column list" and max_rows i and parsedText :: string
  assume "js_less (Finite (int i)) max_rows"
  then show "((columnData, max_rows, Suc i,
               csv_cells_loop i columnData parsedText @ [CHR 0x0D, CHR 0x0A]),
              (columnData, max_rows, i, parsedText))
             \<in> measure (\<lambda>(columnData, max_rows, i, parsedText). rows_left max_rows i)"
    by (cases max_rows) auto
qed

declare csv_rows_loop.simps [simp del]

definition parseCSV :: "column list \<Rightarrow> string" where
  "parseCSV columnData =
     (let max_rows = js_plus_one (Math_max (map (\<lambda>col. length (messages col)) columnData))
      in csv_rows_loop columnData max_rows 0 [])"

section \<open>The page and the extraction in \<open>run\<close>\<close>

text \<open>
  The page is what the browser answers to the lookups of \<open>run\<close>. A lookup of one
  element inside another (\<open>$eval\<close>) has the \<open>innerText\<close> of the first match, or no
  match at all (\<open>None\<close>); a lookup of all matches (\<open>$$\<close>) has the elements in page
  order. Navigation and the wait for a message container either resolve or reject.
\<close>

record message_element =
  messageVotes_innerText :: "string option"
  messageText_innerText :: "string option"

record column_element =
  columnHeader_innerText :: "string option"
  messageContainer_elements :: "message_element list"

record page =
  goto_resolves :: bool
  messageContainer_appears :: bool
  boardTitleIdentifier_innerText :: "string option"
  messageColumn_elements :: "column_element list"

datatype selector = BoardTitleIdentifier | ColumnHeader | MessageVotes | MessageText

text \<open>
  What \<open>run\<close> can reject with: a failed navigation, the time-out of
  \<open>waitForSelector\<close>, the error of \<open>$eval\<close> when the selector matches no element, and
  the two strings that \<open>run\<close> throws itself.
\<close>

datatype error =
  NavigationError
| TimeoutError
| NoElementFound selector
| Thrown string

text \<open>\<open>$eval(selector, f)\<close>: \<open>f\<close> of the first match, an error when there is none.\<close>

definition eval_selector :: "selector \<Rightarrow> string option \<Rightarrow> (string \<Rightarrow> 'a) \<Rightarrow> error + 'a" where
  "eval_selector sel found f =
     (case found of None \<Rightarrow> Inl (NoElementFound sel) | Some innerText \<Rightarrow> Inr (f innerText))"

text \<open>
  The loop over the message elements of one column. \<open>votes\<close> is \<open>None\<close> for
  not-a-number, and then \<open>votes >= settings.voteCount\<close> is false. The text of a
  message is looked up only when the votes pass. \<open>settings.voteCount\<close> comes from
  the settings file, which is read once; it is a parameter here, an integer.
\<close>

fun messages_loop :: "int \<Rightarrow> message_element list \<Rightarrow> message list \<Rightarrow> error + message list" where
  "messages_loop settings_voteCount [] eval_messages = Inr eval_messages"
| "messages_loop settings_voteCount (el # rest) eval_messages =
     (case eval_selector MessageVotes (messageVotes_innerText el) (\<lambda>t. parseInt (trim t)) of
        Inl e \<Rightarrow> Inl e
      | Inr None \<Rightarrow> messages_loop settings_voteCount rest eval_messages
      | Inr (Some votes) \<Rightarrow>
          if votes \<ge> settings_voteCount then
            (case eval_selector MessageText (messageText_innerText el) trim of
               Inl e \<Rightarrow> Inl e
             | Inr messageText \<Rightarrow>
                 messages_loop settings_voteCount rest
                   (eval_messages @ [\<lparr>text = messageText, voteCount = votes\<rparr>]))
          else messages_loop settings_voteCount rest eval_messages)"

text \<open>The loop over the column elements.\<close>

fun columns_loop :: "int \<Rightarrow> column_element list \<Rightarrow> column list \<Rightarrow> error + column list" where
  "columns_loop settings_voteCount [] eval_columns = Inr eval_columns"
| "columns_loop settings_voteCount (el # rest) eval_columns =
     (case eval_selector ColumnHeader (columnHeader_innerText el) trim of
        Inl e \<Rightarrow> Inl e
      | Inr header \<Rightarrow>
          (case messages_loop settings_voteCount (messageContainer_elements el) [] of
             Inl e \<Rightarrow> Inl e
           | Inr eval_messages \<Rightarrow>
               columns_loop settings_voteCount rest
                 (eval_columns @ [\<lparr>columnTitle = header, messages = eval_messages\<rparr>])))"

text \<open>
  The first part of \<open>run\<close>, up to the evaluated columns: navigation, the wait for a
  message container, the board title, which is thrown on when it is empty after
  trimming, and the columns that the second part hands to a serializer.
\<close>

definition extract_board :: "int \<Rightarrow> page \<Rightarrow> error + board" where
  "extract_board settings_voteCount p =
     (if \<not> goto_resolves p then Inl NavigationError
      else if \<not> messageContainer_appears p then Inl TimeoutError
      else
        (case eval_selector BoardTitleIdentifier (boardTitleIdentifier_innerText p) trim of
           Inl e \<Rightarrow> Inl e
         | Inr boardTitle \<Rightarrow>
             if boardTitle = [] then
               Inl (Thrown
                 ''Board title does not exist. Please check if provided URL is correct.'')
             else
               (case columns_loop settings_voteCount (messageColumn_elements p) [] of
                  Inl e \<Rightarrow> Inl e
                | Inr eval_columns \<Rightarrow> Inr \<lparr>title = boardTitle, columns = eval_columns\<rparr>)))"

text \<open>
  The second part of \<open>run\<close>: the \<open>switch\<close> on \<open>argv.fileType\<close>, which compares by
  strict equality and throws on any value but the two it names.
\<close>

definition serialize :: "string \<Rightarrow> board \<Rightarrow> error + string" where
  "serialize argv_fileType b =
     (if argv_fileType = ''txt'' then Inr (parseTextFile (title b) (columns b))
      else if argv_fileType = ''csv'' then Inr (parseCSV (columns b))
      else Inl (Thrown ''File type is not supported, currently supports .txt and .csv''))"

text \<open>\<open>run\<close>: both parts in sequence; the result is the pair \<open>[data, boardTitle]\<close>.\<close>

definition run :: "int \<Rightarrow> string \<Rightarrow> page \<Rightarrow> error + (string \<times> string)" where
  "run settings_voteCount argv_fileType p =
     (case extract_board settings_voteCount p of
        Inl e \<Rightarrow> Inl e
      | Inr b \<Rightarrow>
          (case serialize argv_fileType b of
             Inl e \<Rightarrow> Inl e
           | Inr data \<Rightarrow> Inr (data, title b)))"

section \<open>The serializers as steps on the state of the module\<close>

text \<open>
  What outlives a call in the module: the bindings \<open>settings\<close> and \<open>argv\<close> made when
  the module is loaded, and a slot for the accumulator \<open>parsedText\<close>, which holds
  whatever an earlier call left in it.
\<close>

record module_state =
  module_settings_voteCount :: int
  module_argv_url :: string
  module_argv_filePath :: string
  module_argv_fileType :: string
  var_parsedText :: string

text \<open>
  \<open>parseTextFile\<close>, statement by statement: \<open>let parsedText = ...\<close> writes the slot,
  every \<open>parsedText += ...\<close> appends to it, \<open>return parsedText\<close> reads it. The result
  is the returned string and the state after the call.
\<close>

fun text_messages_loop_st :: "message list \<Rightarrow> module_state \<Rightarrow> module_state" where
  "text_messages_loop_st [] s = s"
| "text_messages_loop_st (message # rest) s =
     text_messages_loop_st rest
       (s\<lparr>var_parsedText :=
            var_parsedText s @ ''- '' @ text message @ '' (''
              @ number_to_string (voteCount message) @ '') \<newline>''\<rparr>)"

fun text_columns_loop_st :: "column list \<Rightarrow> module_state \<Rightarrow> module_state" where
  "text_columns_loop_st [] s = s"
| "text_columns_loop_st (col # rest) s =
     (let s1 =
            (if length (messages col) \<noteq> 0
             then s\<lparr>var_parsedText := var_parsedText s @ columnTitle col @ '' \<newline>''\<rparr>
             else s);
          s2 = text_messages_loop_st (messages col) s1;
          s3 =
            (if length (messages col) \<noteq> 0
             then s2\<lparr>var_parsedText := var_parsedText s2 @ ''\<newline>''\<rparr>
             else s2)
      in text_columns_loop_st rest s3)"

definition parseTextFile_st :: "string \<Rightarrow> column list \<Rightarrow> module_state \<Rightarrow> string \<times> module_state" where
  "parseTextFile_st boardTitle columnData s =
     (let s1 = s\<lparr>var_parsedText := boardTitle @ '' \<newline>\<newline>''\<rparr>;
          s2 = text_columns_loop_st columnData s1
      in (var_parsedText s2, s2))"

text \<open>
  \<open>parseCSV\<close> in the same way; \<open>max_rows\<close> is computed once, from the argument, and
  does not change in the loop.
\<close>

fun csv_cells_loop_st :: "nat \<Rightarrow> column list \<Rightarrow> module_state \<Rightarrow> module_state" where
  "csv_cells_loop_st i [] s = s"
| "csv_cells_loop_st i (col # rest) s =
     csv_cells_loop_st i rest
       (if i = 0 then s\<lparr>var_parsedText := var_parsedText s @ columnTitle col @ '',''\<rparr>
        else (case array_get (messages col) (i - 1) of
                None \<Rightarrow> s\<lparr>var_parsedText := var_parsedText s @ '',''\<rparr>
              | Some message \<Rightarrow>
                  s\<lparr>var_parsedText :=
                       var_parsedText s @ text message @ '' (''
                         @ number_to_string (voteCount message) @ ''),''\<rparr>))"

function csv_rows_loop_st ::
  "column list \<Rightarrow> js_number \<Rightarrow> nat \<Rightarrow> module_state \<Rightarrow> module_state" where
  "csv_rows_loop_st columnData max_rows i s =
     (if js_less (Finite (int i)) max_rows
      then (let s1 = csv_cells_loop_st i columnData s
            in csv_rows_loop_st columnData max_rows (Suc i)
                 (s1\<lparr>var_parsedText := var_parsedText s1 @ [CHR 0x0D, CHR 0x0A]\<rparr>))
      else s)"
  by pat_completeness auto
termination
proof (relation "measure (\<lambda>(columnData, max_rows, i, s). rows_left max_rows i)")
  show "wf (measure (\<lambda>(columnData, max_rows, i, s). rows_left max_rows i))"
    by simp
next
  fix columnData :: "column list" and max_rows i and s s1 :: module_state
  assume "js_less (Finite (int i)) max_rows"
  then show "((columnData, max_rows, Suc i,
               s1\<lparr>var_parsedText := var_parsedText s1 @ [CHR 0x0D, CHR 0x0A]\<rparr>),
              (columnData, max_rows, i, s))
             \<in> measure (\<lambda>(columnData, max_rows, i, s). rows_left max_rows i)"
    by (cases max_rows) auto
qed

declare csv_rows_loop_st.simps [simp del]

definition parseCSV_st :: "column list \<Rightarrow> module_state \<Rightarrow> string \<times> module_state" where
  "parseCSV_st columnData s =
     (let s1 = s\<lparr>var_parsedText := []\<rparr>;
          max_rows = js_plus_one (Math_max (map (\<lambda>col. length (messages col)) columnData));
          s2 = csv_rows_loop_st columnData max_rows 0 s1
      in (var_parsedText s2, s2))"

section \<open>The layouts as the specification words them\<close>

text \<open>
  The text layout: the title line and an empty line, then a block for each column that
  has a message (its title, a line for each message, an empty line), nothing for a
  column that has none. The CSV layout: row 0 has the column titles, row \<open>r\<close> the
  message of rank \<open>r\<close> of each column or an empty cell, each cell followed by the
  separator, each row closed by carriage return and line feed; the data rows number the
  longest message list, 0 when there is no column.
\<close>

definition spec_message_cell :: "message \<Rightarrow> string" where
  "spec_message_cell m = text m @ '' ('' @ number_to_string (voteCount m) @ '')''"

definition spec_message_line :: "message \<Rightarrow> string" where
  "spec_message_line m = ''- '' @ spec_message_cell m @ '' \<newline>''"

definition spec_column_block :: "column \<Rightarrow> string" where
  "spec_column_block c =
     (if messages c = [] then []
      else columnTitle c @ '' \<newline>'' @ concat (map spec_message_line (messages c)) @ ''\<newline>'')"

definition spec_toText :: "board \<Rightarrow> string" where
  "spec_toText b = title b @ '' \<newline>\<newline>'' @ concat (map spec_column_block (columns b))"

definition spec_csv_cell :: "nat \<Rightarrow> column \<Rightarrow> string" where
  "spec_csv_cell r c =
     (if r = 0 then columnTitle c
      else if r \<le> length (messages c) then spec_message_cell (messages c ! (r - 1))
      else [])"

definition spec_csv_row :: "column list \<Rightarrow> nat \<Rightarrow> string" where
  "spec_csv_row cols r = concat (map (\<lambda>c. spec_csv_cell r c @ '','') cols) @ [CHR 0x0D, CHR 0x0A]"

definition spec_max_messages :: "column list \<Rightarrow> nat" where
  "spec_max_messages cols = foldr max (map (\<lambda>c. length (messages c)) cols) 0"

definition spec_toCSV :: "column list \<Rightarrow> string" where
  "spec_toCSV cols = concat (map (spec_csv_row cols) [0..<Suc (spec_max_messages cols)])"

text \<open>
  A message element that the filter of \<open>run\<close> leaves out without an error: its votes
  element is there, and its text is read as not-a-number or as a number below
  \<open>settings.voteCount\<close>.
\<close>

definition filtered_out :: "int \<Rightarrow> message_element \<Rightarrow> bool" where
  "filtered_out settings_voteCount el =
     (case messageVotes_innerText el of
        None \<Rightarrow> False
      | Some t \<Rightarrow> (case parseInt (trim t) of None \<Rightarrow> True | Some votes \<Rightarrow> votes < settings_voteCount))"

section \<open>Example pages\<close>

text \<open>
  A page that loads, shows a message container and has a title; a column with the header
  \<open>Went well\<close> between spaces; a message element with both of its parts.
\<close>

definition example_element :: "string \<Rightarrow> string \<Rightarrow> message_element" where
  "example_element votes_text message_text =
     \<lparr>messageVotes_innerText = Some votes_text, messageText_innerText = Some message_text\<rparr>"

definition example_column :: "message_element list \<Rightarrow> column_element" where
  "example_column els =
     \<lparr>columnHeader_innerText = Some '' Went well '', messageContainer_elements = els\<rparr>"

definition example_page :: "string \<Rightarrow> column_element list \<Rightarrow> page" where
  "example_page title_text cols =
     \<lparr>goto_resolves = True, messageContainer_appears = True,
      boardTitleIdentifier_innerText = Some title_text, messageColumn_elements = cols\<rparr>"

text \<open>The equations that evaluate \<open>run\<close> on a concrete page.\<close>

lemmas eval_simps =
  example_element_def example_column_def example_page_def
  run_def extract_board_def serialize_def eval_selector_def
  trim_def is_white_space_def parseInt_def digit_value_def
  parseTextFile_def parseCSV_def Math_max_def csv_rows_loop.simps array_get_def
  number_to_string_def nat_to_string.simps digit_char_def

section \<open>The serializers follow the layouts\<close>

lemma text_messages_loop_eq:
  "text_messages_loop ms parsedText = parsedText @ concat (map spec_message_line ms)"
  by (induction ms arbitrary: parsedText) (simp_all add: spec_message_line_def spec_message_cell_def)

lemma text_columns_loop_eq:
  "text_columns_loop cols parsedText = parsedText @ concat (map spec_column_block cols)"
  by (induction cols arbitrary: parsedText)
     (simp_all add: text_messages_loop_eq spec_column_block_def Let_def)

lemma csv_cells_loop_eq:
  "csv_cells_loop i cols parsedText = parsedText @ concat (map (\<lambda>c. spec_csv_cell i c @ '','') cols)"
proof (induction cols arbitrary: parsedText)
  case Nil
  show ?case by simp
next
  case (Cons c cols)
  have cell: "(if i = 0 then parsedText @ columnTitle c @ '',''
        else (case array_get (messages c) (i - 1) of
                None \<Rightarrow> parsedText @ '',''
              | Some message \<Rightarrow>
                  parsedText @ text message @ '' ('' @ number_to_string (voteCount message)
                    @ ''),'')) = parsedText @ spec_csv_cell i c @ '',''"
    by (cases "i = 0") (auto simp: spec_csv_cell_def array_get_def spec_message_cell_def)
  show ?case
    by (simp only: csv_cells_loop.simps cell Cons.IH) simp
qed

lemma Math_max_from_Finite:
  "0 \<le> a \<Longrightarrow> Math_max_from (Finite a) ns = Finite (max a (int (foldr max ns 0)))"
  by (induction ns arbitrary: a) auto

lemma Math_max_nonempty:
  "ns \<noteq> [] \<Longrightarrow> Math_max ns = Finite (int (foldr max ns 0))"
  by (cases ns) (simp_all add: Math_max_def Math_max_from_Finite)

lemma csv_rows_loop_eq:
  "csv_rows_loop cols (Finite (int n)) i parsedText =
     parsedText @ concat (map (spec_csv_row cols) [i..<n])"
proof (induction "n - i" arbitrary: i parsedText)
  case 0
  then show ?case by (simp add: csv_rows_loop.simps)
next
  case (Suc k)
  then have lt: "i < n" and k: "k = n - Suc i" by simp_all
  have "csv_rows_loop cols (Finite (int n)) i parsedText =
        csv_rows_loop cols (Finite (int n)) (Suc i)
          (csv_cells_loop i cols parsedText @ [CHR 0x0D, CHR 0x0A])"
    using lt by (subst csv_rows_loop.simps) simp
  also have "\<dots> = (parsedText @ spec_csv_row cols i) @ concat (map (spec_csv_row cols) [Suc i..<n])"
    by (simp add: Suc.hyps(1)[OF k] csv_cells_loop_eq spec_csv_row_def)
  also have "\<dots> = parsedText @ concat (map (spec_csv_row cols) [i..<n])"
    using lt by (simp add: upt_conv_Cons)
  finally show ?case .
qed

lemma parseCSV_nonempty:
  "cols \<noteq> [] \<Longrightarrow> parseCSV cols = spec_toCSV cols"
proof -
  assume ne: "cols \<noteq> []"
  then have "Math_max (map (\<lambda>col. length (messages col)) cols) = Finite (int (spec_max_messages cols))"
    by (simp add: Math_max_nonempty spec_max_messages_def)
  then have "parseCSV cols = csv_rows_loop cols (Finite (int (Suc (spec_max_messages cols)))) 0 []"
    by (simp add: parseCSV_def add.commute)
  then show ?thesis by (simp only: csv_rows_loop_eq spec_toCSV_def) simp
qed


text \<open>
  C4: the text file is the title followed by a space and two line feeds, then for every
  column with a message its title line, a line \<open>- text (votes)\<close> for each message in
  order and an empty line; a column without messages adds nothing, wherever it stands.
  The board of Scenario 1 gives exactly the text of the specification.
\<close>

theorem parseTextFile_layout:
  "parseTextFile (title b) (columns b) = spec_toText b
   \<and> (messages c = [] \<longrightarrow>
        parseTextFile t (before @ c # after) = parseTextFile t (before @ after))
   \<and> parseTextFile ''Sprint 1''
         [\<lparr>columnTitle = ''Went well'',
            messages = [\<lparr>text = ''Shipped X'', voteCount = 3\<rparr>]\<rparr>,
          \<lparr>columnTitle = ''Needs work'', messages = []\<rparr>]
       = ''Sprint 1 \<newline>\<newline>Went well \<newline>- Shipped X (3) \<newline>\<newline>''"
proof (intro conjI impI)
  show "parseTextFile (title b) (columns b) = spec_toText b"
    by (simp add: parseTextFile_def spec_toText_def text_columns_loop_eq)
next
  assume "messages c = []"
  then show "parseTextFile t (before @ c # after) = parseTextFile t (before @ after)"
    by (simp add: parseTextFile_def text_columns_loop_eq spec_column_block_def)
next
  show "parseTextFile ''Sprint 1''
         [\<lparr>columnTitle = ''Went well'',
            messages = [\<lparr>text = ''Shipped X'', voteCount = 3\<rparr>]\<rparr>,
          \<lparr>columnTitle = ''Needs work'', messages = []\<rparr>]
       = ''Sprint 1 \<newline>\<newline>Went well \<newline>- Shipped X (3) \<newline>\<newline>''"
    by (simp add: parseTextFile_def number_to_string_def nat_to_string.simps digit_char_def)
qed

theorem parseTextFile_layout_witness:
  "messages \<lparr>columnTitle = ''Needs work'', messages = []\<rparr> = []
   \<and> parseTextFile ''Sprint 1''
         ([\<lparr>columnTitle = ''Went well'',
             messages = [\<lparr>text = ''Shipped X'', voteCount = 3\<rparr>]\<rparr>]
          @ \<lparr>columnTitle = ''Needs work'', messages = []\<rparr> # [])
       = parseTextFile ''Sprint 1''
           ([\<lparr>columnTitle = ''Went well'',
               messages = [\<lparr>text = ''Shipped X'', voteCount = 3\<rparr>]\<rparr>] @ [])"
  using parseTextFile_layout
    [of _ "\<lparr>columnTitle = ''Needs work'', messages = []\<rparr>" "''Sprint 1''"
        "[\<lparr>columnTitle = ''Went well'',
            messages = [\<lparr>text = ''Shipped X'', voteCount = 3\<rparr>]\<rparr>]" "[]"]
  by simp

text \<open>
  C5: for a board with at least one column the CSV file is the header row followed by
  one row for each rank from 1 to the length of the longest message list; in row \<open>r\<close>
  every column, left to right, gives its message of index \<open>r - 1\<close> as \<open>text (votes)\<close>
  or an empty cell, each followed by a comma, and the row ends with carriage return and
  line feed. No column is longer than the number of data rows, so no message is cut off.
  The board of Scenario 1 gives the two rows of Scenario 2.
\<close>

theorem parseCSV_layout:
  "(columnData \<noteq> [] \<longrightarrow>
      parseCSV columnData = spec_toCSV columnData
      \<and> (\<forall>c \<in> set columnData. length (messages c) \<le> spec_max_messages columnData))
   \<and> parseCSV
         [\<lparr>columnTitle = ''Went well'',
            messages = [\<lparr>text = ''Shipped X'', voteCount = 3\<rparr>]\<rparr>,
          \<lparr>columnTitle = ''Needs work'', messages = []\<rparr>]
       = ''Went well,Needs work,'' @ [CHR 0x0D, CHR 0x0A]
         @ ''Shipped X (3),,'' @ [CHR 0x0D, CHR 0x0A]"
proof (intro conjI impI ballI)
  assume "columnData \<noteq> []"
  then show "parseCSV columnData = spec_toCSV columnData"
    by (rule parseCSV_nonempty)
next
  fix c
  assume "c \<in> set columnData"
  then show "length (messages c) \<le> spec_max_messages columnData"
    unfolding spec_max_messages_def by (induction columnData) auto
next
  show "parseCSV
         [\<lparr>columnTitle = ''Went well'',
            messages = [\<lparr>text = ''Shipped X'', voteCount = 3\<rparr>]\<rparr>,
          \<lparr>columnTitle = ''Needs work'', messages = []\<rparr>]
       = ''Went well,Needs work,'' @ [CHR 0x0D, CHR 0x0A]
         @ ''Shipped X (3),,'' @ [CHR 0x0D, CHR 0x0A]"
    by (simp add: parseCSV_def Math_max_def csv_rows_loop.simps array_get_def
        number_to_string_def nat_to_string.simps digit_char_def)
qed

theorem parseCSV_layout_witness:
  "[\<lparr>columnTitle = ''A'', messages = [\<lparr>text = ''x'', voteCount = 2\<rparr>]\<rparr>,
    \<lparr>columnTitle = ''B'', messages = []\<rparr>] \<noteq> []
   \<and> parseCSV [\<lparr>columnTitle = ''A'', messages = [\<lparr>text = ''x'', voteCount = 2\<rparr>]\<rparr>,
                \<lparr>columnTitle = ''B'', messages = []\<rparr>]
       = spec_toCSV [\<lparr>columnTitle = ''A'', messages = [\<lparr>text = ''x'', voteCount = 2\<rparr>]\<rparr>,
                     \<lparr>columnTitle = ''B'', messages = []\<rparr>]
   \<and> length (messages \<lparr>columnTitle = ''B'', messages = []\<rparr>)
       \<le> spec_max_messages
            [\<lparr>columnTitle = ''A'', messages = [\<lparr>text = ''x'', voteCount = 2\<rparr>]\<rparr>,
             \<lparr>columnTitle = ''B'', messages = []\<rparr>]"
  using parseCSV_layout
    [of "[\<lparr>columnTitle = ''A'', messages = [\<lparr>text = ''x'', voteCount = 2\<rparr>]\<rparr>,
          \<lparr>columnTitle = ''B'', messages = []\<rparr>]"]
  by simp

text \<open>
  C1: on a board without columns \<open>Math.max\<close> has no argument and is negative infinity,
  \<open>max_rows\<close> is negative infinity too and the loop makes no iteration: the file is
  empty, with no header row, where the layout of the specification has one row, which
  is empty up to its carriage return and line feed.
\<close>

theorem parseCSV_no_columns:
  "parseCSV [] = [] \<and> spec_toCSV [] = [CHR 0x0D, CHR 0x0A]"
  by (simp add: parseCSV_def Math_max_def csv_rows_loop.simps spec_toCSV_def
      spec_max_messages_def spec_csv_row_def)

section \<open>The extraction keeps what passes the filter\<close>

lemma messages_loop_append:
  "messages_loop vc (xs @ ys) acc =
     (case messages_loop vc xs acc of Inl e \<Rightarrow> Inl e | Inr acc' \<Rightarrow> messages_loop vc ys acc')"
  by (induction xs arbitrary: acc)
     (simp_all add: eval_selector_def split: option.splits sum.splits)

lemma messages_loop_filtered_out:
  "filtered_out vc el \<Longrightarrow> messages_loop vc (el # rest) acc = messages_loop vc rest acc"
  by (auto simp: filtered_out_def eval_selector_def split: option.splits)

lemma messages_loop_without:
  "filtered_out vc el \<Longrightarrow>
     messages_loop vc (before @ el # after) acc = messages_loop vc (before @ after) acc"
proof -
  assume "filtered_out vc el"
  then have "messages_loop vc (el # after) acc' = messages_loop vc after acc'" for acc'
    by (rule messages_loop_filtered_out)
  then show ?thesis
    by (simp only: messages_loop_append)
qed

lemma columns_loop_append:
  "columns_loop vc (xs @ ys) acc =
     (case columns_loop vc xs acc of Inl e \<Rightarrow> Inl e | Inr acc' \<Rightarrow> columns_loop vc ys acc')"
  by (induction xs arbitrary: acc)
     (simp_all add: eval_selector_def split: option.splits sum.splits)

lemma columns_loop_without:
  assumes "filtered_out vc el"
  shows "columns_loop vc
           (cs1 @ c\<lparr>messageContainer_elements := before @ el # after\<rparr> # cs2) acc =
         columns_loop vc
           (cs1 @ c\<lparr>messageContainer_elements := before @ after\<rparr> # cs2) acc"
proof -
  have "columns_loop vc (c\<lparr>messageContainer_elements := before @ el # after\<rparr> # cs2) acc' =
        columns_loop vc (c\<lparr>messageContainer_elements := before @ after\<rparr> # cs2) acc'"
    for acc'
    by (simp add: messages_loop_without[OF assms] cong: sum.case_cong)
  then show ?thesis
    by (simp only: columns_loop_append)
qed

lemma run_without:
  assumes "filtered_out vc el"
  shows "run vc ft
           (p\<lparr>messageColumn_elements :=
                cs1 @ c\<lparr>messageContainer_elements := before @ el # after\<rparr> # cs2\<rparr>) =
         run vc ft
           (p\<lparr>messageColumn_elements :=
                cs1 @ c\<lparr>messageContainer_elements := before @ after\<rparr> # cs2\<rparr>)"
proof -
  have "extract_board vc
           (p\<lparr>messageColumn_elements :=
                cs1 @ c\<lparr>messageContainer_elements := before @ el # after\<rparr> # cs2\<rparr>) =
        extract_board vc
           (p\<lparr>messageColumn_elements :=
                cs1 @ c\<lparr>messageContainer_elements := before @ after\<rparr> # cs2\<rparr>)"
    unfolding extract_board_def
    by (simp add: columns_loop_without[OF assms] cong: sum.case_cong if_cong)
  then show ?thesis
    by (simp only: run_def)
qed

lemma messages_loop_threshold:
  "messages_loop vc els acc = Inr ms \<Longrightarrow> \<forall>m \<in> set acc. vc \<le> voteCount m \<Longrightarrow>
     \<forall>m \<in> set ms. vc \<le> voteCount m"
proof (induction els arbitrary: acc)
  case Nil
  then show ?case by simp
next
  case (Cons el els)
  then show ?case
    by (auto simp: eval_selector_def split: option.splits if_splits)
qed

lemma columns_loop_threshold:
  "columns_loop vc els acc = Inr cs \<Longrightarrow>
     \<forall>c \<in> set acc. \<forall>m \<in> set (messages c). vc \<le> voteCount m \<Longrightarrow>
     \<forall>c \<in> set cs. \<forall>m \<in> set (messages c). vc \<le> voteCount m"
proof (induction els arbitrary: acc)
  case Nil
  then show ?case by simp
next
  case (Cons el els)
  from Cons.prems(1) obtain h ms where
    h: "columnHeader_innerText el = Some h" and
    ms: "messages_loop vc (messageContainer_elements el) [] = Inr ms" and
    rest: "columns_loop vc els (acc @ [\<lparr>columnTitle = trim h, messages = ms\<rparr>]) = Inr cs"
    by (auto simp: eval_selector_def split: option.splits sum.splits)
  have "\<forall>m \<in> set ms. vc \<le> voteCount m"
    using messages_loop_threshold[OF ms] by simp
  with Cons.prems(2) have
    "\<forall>c \<in> set (acc @ [\<lparr>columnTitle = trim h, messages = ms\<rparr>]). \<forall>m \<in> set (messages c). vc \<le> voteCount m"
    by auto
  from Cons.IH[OF rest this] show ?case .
qed

lemma columns_loop_columns:
  "columns_loop vc els acc = Inr cs \<Longrightarrow>
     \<exists>new. cs = acc @ new \<and>
       list_all2 (\<lambda>el c. map_option trim (columnHeader_innerText el) = Some (columnTitle c)
                   \<and> messages_loop vc (messageContainer_elements el) [] = Inr (messages c))
         els new"
proof (induction els arbitrary: acc)
  case Nil
  then show ?case by simp
next
  case (Cons el els)
  from Cons.prems(1) obtain h ms where
    h: "columnHeader_innerText el = Some h" and
    ms: "messages_loop vc (messageContainer_elements el) [] = Inr ms" and
    rest: "columns_loop vc els (acc @ [\<lparr>columnTitle = trim h, messages = ms\<rparr>]) = Inr cs"
    by (auto simp: eval_selector_def split: option.splits sum.splits)
  from Cons.IH[OF rest] obtain new where
    new: "cs = (acc @ [\<lparr>columnTitle = trim h, messages = ms\<rparr>]) @ new" and
    rel: "list_all2 (\<lambda>el c. map_option trim (columnHeader_innerText el) = Some (columnTitle c)
                   \<and> messages_loop vc (messageContainer_elements el) [] = Inr (messages c))
         els new"
    by blast
  show ?case
  proof (intro exI conjI)
    show "cs = acc @ (\<lparr>columnTitle = trim h, messages = ms\<rparr> # new)" using new by simp
    show "list_all2 (\<lambda>el c. map_option trim (columnHeader_innerText el) = Some (columnTitle c)
                   \<and> messages_loop vc (messageContainer_elements el) [] = Inr (messages c))
         (el # els) (\<lparr>columnTitle = trim h, messages = ms\<rparr> # new)"
      using rel h ms by simp
  qed
qed

lemma messages_loop_all_filtered_out:
  "\<forall>el \<in> set els. filtered_out vc el \<Longrightarrow> messages_loop vc els acc = Inr acc"
  by (induction els) (simp_all add: messages_loop_filtered_out del: messages_loop.simps(2))

lemma trim_eq_Nil_iff: "trim t = [] \<longleftrightarrow> (\<forall>c \<in> set t. is_white_space c)"
proof
  assume "trim t = []"
  then have all: "\<forall>x \<in> set (dropWhile is_white_space t). is_white_space x"
    by (simp add: trim_def dropWhile_eq_Nil_conv)
  have "dropWhile is_white_space t = []"
  proof (rule ccontr)
    assume ne: "dropWhile is_white_space t \<noteq> []"
    then have "\<not> is_white_space (hd (dropWhile is_white_space t))"
      by (rule hd_dropWhile)
    moreover have "hd (dropWhile is_white_space t) \<in> set (dropWhile is_white_space t)"
      using ne by simp
    ultimately show False using all by blast
  qed
  then show "\<forall>c \<in> set t. is_white_space c"
    by (simp add: dropWhile_eq_Nil_conv)
next
  assume "\<forall>c \<in> set t. is_white_space c"
  then show "trim t = []"
    by (auto simp: trim_def dest: set_dropWhileD)
qed

text \<open>
  C2, as the claim words it, fails where the votes element of a message is missing:
  \<open>$eval\<close> finds no element for \<open>settings.selectors.messageVotes\<close> and rejects, and
  \<open>run\<close> rejects with it instead of leaving the message out.
\<close>

theorem missing_votes_element_counterexample:
  "run 1 ''txt'' (example_page ''Sprint 1''
      [example_column
         [\<lparr>messageVotes_innerText = None, messageText_innerText = Some ''Shipped X''\<rparr>]])
   = Inl (NoElementFound MessageVotes)"
  by (simp add: eval_simps)

lemma messages_loop_missing_votes:
  "el \<in> set els \<Longrightarrow> messageVotes_innerText el = None \<Longrightarrow> isl (messages_loop vc els acc)"
proof (induction els arbitrary: acc)
  case Nil
  then show ?case by simp
next
  case (Cons a els)
  show ?case
  proof (cases "a = el")
    case True
    with Cons.prems(2) show ?thesis
      by (simp add: eval_selector_def)
  next
    case False
    with Cons.prems have "isl (messages_loop vc els acc')" for acc'
      using Cons.IH by simp
    then show ?thesis
      by (simp add: eval_selector_def split: option.splits)
  qed
qed

lemma columns_loop_missing_votes:
  "c \<in> set cols \<Longrightarrow> el \<in> set (messageContainer_elements c) \<Longrightarrow>
     messageVotes_innerText el = None \<Longrightarrow> isl (columns_loop vc cols acc)"
proof (induction cols arbitrary: acc)
  case Nil
  then show ?case by simp
next
  case (Cons a cols)
  show ?case
  proof (cases "a = c")
    case True
    have "isl (messages_loop vc (messageContainer_elements c) [])"
      using Cons.prems(2,3) by (rule messages_loop_missing_votes)
    with True show ?thesis
      by (auto simp: eval_selector_def isl_def split: option.splits)
  next
    case False
    with Cons.prems have "isl (columns_loop vc cols acc')" for acc'
      using Cons.IH by simp
    then show ?thesis
      by (simp add: eval_selector_def split: option.splits sum.splits)
  qed
qed

lemma run_missing_votes:
  assumes "c \<in> set (messageColumn_elements p)" and "el \<in> set (messageContainer_elements c)"
    and "messageVotes_innerText el = None"
  shows "isl (run vc ft p)"
proof -
  have "isl (columns_loop vc (messageColumn_elements p) [])"
    using assms by (rule columns_loop_missing_votes)
  then have "isl (extract_board vc p)"
    by (auto simp: extract_board_def eval_selector_def isl_def split: option.splits)
  then show ?thesis
    by (auto simp: run_def isl_def)
qed

text \<open>
  C2, amended: a message element whose votes element is there, with a text that
  \<open>parseInt\<close> reads as not-a-number (no digit, or no text at all), is left out and
  raises nothing: the loop goes on as if the element were not in the column, and \<open>run\<close>
  gives what it gives on the page without that element. A message element with no votes
  element is not left out: on a page that has one, \<open>run\<close> rejects.
\<close>

theorem unparsable_votes_dropped:
  "(messageVotes_innerText el = Some t \<and> parseInt (trim t) = None \<longrightarrow>
      messages_loop vc (el # rest) eval_messages = messages_loop vc rest eval_messages
      \<and> run vc ft
           (p\<lparr>messageColumn_elements :=
                cs1 @ c\<lparr>messageContainer_elements := before @ el # after\<rparr> # cs2\<rparr>) =
         run vc ft
           (p\<lparr>messageColumn_elements :=
                cs1 @ c\<lparr>messageContainer_elements := before @ after\<rparr> # cs2\<rparr>))
   \<and> (c' \<in> set (messageColumn_elements p') \<and> el' \<in> set (messageContainer_elements c')
        \<and> messageVotes_innerText el' = None \<longrightarrow>
      isl (run vc ft p'))"
proof (intro conjI impI)
  assume "messageVotes_innerText el = Some t \<and> parseInt (trim t) = None"
  then have out: "filtered_out vc el"
    by (simp add: filtered_out_def)
  from out show "messages_loop vc (el # rest) eval_messages = messages_loop vc rest eval_messages"
    by (rule messages_loop_filtered_out)
  from out show "run vc ft
           (p\<lparr>messageColumn_elements :=
                cs1 @ c\<lparr>messageContainer_elements := before @ el # after\<rparr> # cs2\<rparr>) =
         run vc ft
           (p\<lparr>messageColumn_elements :=
                cs1 @ c\<lparr>messageContainer_elements := before @ after\<rparr> # cs2\<rparr>)"
    by (rule run_without)
next
  assume "c' \<in> set (messageColumn_elements p') \<and> el' \<in> set (messageContainer_elements c')
        \<and> messageVotes_innerText el' = None"
  then show "isl (run vc ft p')"
    using run_missing_votes by blast
qed

theorem unparsable_votes_dropped_witness:
  "messageVotes_innerText (example_element ''n/a'' ''Shipped X'') = Some ''n/a''
   \<and> parseInt (trim ''n/a'') = None
   \<and> run 1 ''txt''
       (example_page ''Sprint 1''
          [example_column [example_element ''n/a'' ''Shipped X'', example_element ''3'' ''Kept'']])
     = Inr (''Sprint 1 \<newline>\<newline>Went well \<newline>- Kept (3) \<newline>\<newline>'', ''Sprint 1'')
   \<and> messageVotes_innerText
         \<lparr>messageVotes_innerText = None, messageText_innerText = Some ''Shipped X''\<rparr> = None
   \<and> isl (run 1 ''csv''
         (example_page ''Sprint 1''
            [example_column
               [example_element ''3'' ''Kept'',
                \<lparr>messageVotes_innerText = None, messageText_innerText = Some ''Shipped X''\<rparr>]]))"
  using unparsable_votes_dropped
    [where el = "example_element ''n/a'' ''Shipped X''" and t = "''n/a''" and vc = 1
       and ft = "''txt''" and p = "example_page ''Sprint 1'' []" and ?cs1.0 = "[]"
       and c = "example_column []" and before = "[]"
       and after = "[example_element ''3'' ''Kept'']" and ?cs2.0 = "[]"]
    unparsable_votes_dropped
    [where vc = 1 and ft = "''csv''"
       and p' = "example_page ''Sprint 1''
            [example_column
               [example_element ''3'' ''Kept'',
                \<lparr>messageVotes_innerText = None, messageText_innerText = Some ''Shipped X''\<rparr>]]"
       and c' = "example_column
               [example_element ''3'' ''Kept'',
                \<lparr>messageVotes_innerText = None, messageText_innerText = Some ''Shipped X''\<rparr>]"
       and el' = "\<lparr>messageVotes_innerText = None, messageText_innerText = Some ''Shipped X''\<rparr>"]
  by (simp add: eval_simps)

text \<open>
  C3: every message in every column of an extracted board has a vote count of at least
  \<open>settings.voteCount\<close>; a message element whose votes are below it changes nothing
  in what \<open>run\<close> returns; and with the threshold 2 a message of 1 vote is absent from
  its column while a message of 2 votes is kept (Scenario 5).
\<close>

theorem extracted_votes_reach_threshold:
  "(extract_board vc p = Inr b \<longrightarrow>
      (\<forall>c \<in> set (columns b). \<forall>m \<in> set (messages c). vc \<le> voteCount m))
   \<and> (messageVotes_innerText el = Some t \<and> parseInt (trim t) = Some votes \<and> votes < vc \<longrightarrow>
        run vc ft
           (p\<lparr>messageColumn_elements :=
                cs1 @ c\<lparr>messageContainer_elements := before @ el # after\<rparr> # cs2\<rparr>) =
         run vc ft
           (p\<lparr>messageColumn_elements :=
                cs1 @ c\<lparr>messageContainer_elements := before @ after\<rparr> # cs2\<rparr>))
   \<and> extract_board 2
        (example_page ''Sprint 1''
           [example_column [example_element ''1'' ''Too few'', example_element ''2'' ''Enough'']])
      = Inr \<lparr>title = ''Sprint 1'',
             columns = [\<lparr>columnTitle = ''Went well'',
                         messages = [\<lparr>text = ''Enough'', voteCount = 2\<rparr>]\<rparr>]\<rparr>"
proof (intro conjI impI)
  assume ex: "extract_board vc p = Inr b"
  then obtain cs where cs: "columns_loop vc (messageColumn_elements p) [] = Inr cs"
    and b: "columns b = cs"
    by (auto simp: extract_board_def split: if_splits sum.splits)
  from columns_loop_threshold[OF cs] b
  show "\<forall>c \<in> set (columns b). \<forall>m \<in> set (messages c). vc \<le> voteCount m"
    by simp
next
  assume "messageVotes_innerText el = Some t \<and> parseInt (trim t) = Some votes \<and> votes < vc"
  then have "filtered_out vc el"
    by (simp add: filtered_out_def)
  then show "run vc ft
           (p\<lparr>messageColumn_elements :=
                cs1 @ c\<lparr>messageContainer_elements := before @ el # after\<rparr> # cs2\<rparr>) =
         run vc ft
           (p\<lparr>messageColumn_elements :=
                cs1 @ c\<lparr>messageContainer_elements := before @ after\<rparr> # cs2\<rparr>)"
    by (rule run_without)
next
  show "extract_board 2
        (example_page ''Sprint 1''
           [example_column [example_element ''1'' ''Too few'', example_element ''2'' ''Enough'']])
      = Inr \<lparr>title = ''Sprint 1'',
             columns = [\<lparr>columnTitle = ''Went well'',
                         messages = [\<lparr>text = ''Enough'', voteCount = 2\<rparr>]\<rparr>]\<rparr>"
    by (simp add: eval_simps)
qed

theorem extracted_votes_reach_threshold_witness:
  "extract_board 3
     (example_page ''Sprint 1''
        [example_column [example_element ''5'' ''Liked'', example_element ''1'' ''Too few'']])
   = Inr \<lparr>title = ''Sprint 1'',
          columns = [\<lparr>columnTitle = ''Went well'',
                      messages = [\<lparr>text = ''Liked'', voteCount = 5\<rparr>]\<rparr>]\<rparr>
   \<and> 3 \<le> voteCount \<lparr>text = ''Liked'', voteCount = 5\<rparr>
   \<and> messageVotes_innerText (example_element ''1'' ''Too few'') = Some ''1''
   \<and> parseInt (trim ''1'') = Some 1 \<and> (1::int) < 3
   \<and> run 3 ''txt''
        (example_page ''Sprint 1''
           [example_column [example_element ''5'' ''Liked'', example_element ''1'' ''Too few'']])
     = run 3 ''txt'' (example_page ''Sprint 1'' [example_column [example_element ''5'' ''Liked'']])"
  using extracted_votes_reach_threshold
    [where vc = 3 and p = "example_page ''Sprint 1''
        [example_column [example_element ''5'' ''Liked'', example_element ''1'' ''Too few'']]"
       and b = "\<lparr>title = ''Sprint 1'',
          columns = [\<lparr>columnTitle = ''Went well'',
                      messages = [\<lparr>text = ''Liked'', voteCount = 5\<rparr>]\<rparr>]\<rparr>"
       and el = "example_element ''1'' ''Too few''" and t = "''1''" and votes = 1
       and ft = "''txt''" and ?cs1.0 = "[]" and c = "example_column []"
       and before = "[example_element ''5'' ''Liked'']" and after = "[]" and ?cs2.0 = "[]"]
  by (simp add: eval_simps)

section \<open>Errors of \<open>run\<close>\<close>

text \<open>
  C6: when the title element is found and its text is empty after trimming (empty, or
  white space only), \<open>run\<close> returns no board and no data, whatever the threshold and
  the file type; once the page has loaded and a message container has appeared, what it
  throws is the string \<open>Board title does not exist. Please check if provided URL is
  correct.\<close>
\<close>

theorem blank_title_rejected:
  assumes "boardTitleIdentifier_innerText p = Some t" and "trim t = []"
  shows "isl (extract_board vc p) \<and> isl (run vc ft p)
    \<and> (goto_resolves p \<and> messageContainer_appears p \<longrightarrow>
         extract_board vc p =
           Inl (Thrown ''Board title does not exist. Please check if provided URL is correct.'')
         \<and> run vc ft p =
           Inl (Thrown ''Board title does not exist. Please check if provided URL is correct.''))"
  using assms by (simp add: run_def extract_board_def eval_selector_def)

theorem blank_title_rejected_witness:
  "boardTitleIdentifier_innerText (example_page [CHR '' '', CHR 0x09, CHR '' ''] [])
     = Some [CHR '' '', CHR 0x09, CHR '' '']
   \<and> trim [CHR '' '', CHR 0x09, CHR '' ''] = []
   \<and> goto_resolves (example_page [CHR '' '', CHR 0x09, CHR '' ''] [])
   \<and> messageContainer_appears (example_page [CHR '' '', CHR 0x09, CHR '' ''] [])
   \<and> run 1 ''txt'' (example_page [CHR '' '', CHR 0x09, CHR '' ''] []) =
         Inl (Thrown ''Board title does not exist. Please check if provided URL is correct.'')"
  using blank_title_rejected
    [where p = "example_page [CHR '' '', CHR 0x09, CHR '' ''] []"
       and t = "[CHR '' '', CHR 0x09, CHR '' '']" and vc = 1 and ft = "''txt''"]
  by (simp add: example_page_def trim_def is_white_space_def)

text \<open>
  C7: a file type other than \<open>txt\<close> and \<open>csv\<close> reaches the \<open>default\<close> branch of the
  \<open>switch\<close>, which throws \<open>File type is not supported, currently supports .txt and
  .csv\<close> for every board; \<open>run\<close> then never returns data, and it rejects with that
  string whenever the extraction before the \<open>switch\<close> has succeeded.
\<close>

theorem unsupported_fileType_rejected:
  assumes "ft \<noteq> ''txt''" and "ft \<noteq> ''csv''"
  shows "serialize ft b =
           Inl (Thrown ''File type is not supported, currently supports .txt and .csv'')
    \<and> isl (run vc ft p)
    \<and> (extract_board vc p = Inr b \<longrightarrow>
         run vc ft p =
           Inl (Thrown ''File type is not supported, currently supports .txt and .csv''))"
  using assms by (simp add: run_def serialize_def split: sum.splits)

theorem unsupported_fileType_rejected_witness:
  "''pdf'' \<noteq> ''txt'' \<and> ''pdf'' \<noteq> ''csv''
   \<and> extract_board 1
       (example_page ''Sprint 1'' [example_column [example_element ''3'' ''Shipped X'']])
       = Inr \<lparr>title = ''Sprint 1'',
              columns = [\<lparr>columnTitle = ''Went well'',
                          messages = [\<lparr>text = ''Shipped X'', voteCount = 3\<rparr>]\<rparr>]\<rparr>
   \<and> run 1 ''pdf''
       (example_page ''Sprint 1'' [example_column [example_element ''3'' ''Shipped X'']])
       = Inl (Thrown ''File type is not supported, currently supports .txt and .csv'')"
  using unsupported_fileType_rejected
    [where ft = "''pdf''" and vc = 1
       and p = "example_page ''Sprint 1'' [example_column [example_element ''3'' ''Shipped X'']]"
       and b = "\<lparr>title = ''Sprint 1'',
              columns = [\<lparr>columnTitle = ''Went well'',
                          messages = [\<lparr>text = ''Shipped X'', voteCount = 3\<rparr>]\<rparr>]\<rparr>"]
  by (simp add: eval_simps)

section \<open>What the output depends on\<close>

lemma text_messages_loop_st_eq:
  "text_messages_loop_st ms s = s\<lparr>var_parsedText := text_messages_loop ms (var_parsedText s)\<rparr>"
  by (induction ms arbitrary: s) simp_all

lemma text_columns_loop_st_eq:
  "text_columns_loop_st cols s = s\<lparr>var_parsedText := text_columns_loop cols (var_parsedText s)\<rparr>"
  by (induction cols arbitrary: s) (simp_all add: text_messages_loop_st_eq Let_def)

lemma csv_cells_loop_st_eq:
  "csv_cells_loop_st i cols s = s\<lparr>var_parsedText := csv_cells_loop i cols (var_parsedText s)\<rparr>"
  by (induction cols arbitrary: s) (simp_all split: option.splits)

lemma csv_rows_loop_st_eq:
  "csv_rows_loop_st cols max_rows i s =
     s\<lparr>var_parsedText := csv_rows_loop cols max_rows i (var_parsedText s)\<rparr>"
proof (induction cols max_rows i s rule: csv_rows_loop_st.induct)
  case (1 columnData max_rows i s)
  show ?case
  proof (cases "js_less (Finite (int i)) max_rows")
    case True
    have "csv_rows_loop_st columnData max_rows i s =
          csv_rows_loop_st columnData max_rows (Suc i)
            ((csv_cells_loop_st i columnData s)
               \<lparr>var_parsedText :=
                  var_parsedText (csv_cells_loop_st i columnData s) @ [CHR 0x0D, CHR 0x0A]\<rparr>)"
      using True by (subst csv_rows_loop_st.simps) (simp add: Let_def)
    also have "\<dots> = s\<lparr>var_parsedText :=
        csv_rows_loop columnData max_rows (Suc i)
          (csv_cells_loop i columnData (var_parsedText s) @ [CHR 0x0D, CHR 0x0A])\<rparr>"
      by (subst "1.IH"[OF True refl]) (simp add: csv_cells_loop_st_eq)
    also have "\<dots> = s\<lparr>var_parsedText := csv_rows_loop columnData max_rows i (var_parsedText s)\<rparr>"
      using True by (subst (2) csv_rows_loop.simps) simp
    finally show ?thesis .
  next
    case False
    then show ?thesis
      by (subst csv_rows_loop_st.simps, subst csv_rows_loop.simps) simp
  qed
qed

lemma parseTextFile_st_eq:
  "parseTextFile_st t cols s =
     (parseTextFile t cols, s\<lparr>var_parsedText := parseTextFile t cols\<rparr>)"
  by (simp add: parseTextFile_st_def parseTextFile_def text_columns_loop_st_eq Let_def)

lemma parseCSV_st_eq:
  "parseCSV_st cols s = (parseCSV cols, s\<lparr>var_parsedText := parseCSV cols\<rparr>)"
  by (simp add: parseCSV_st_def parseCSV_def csv_rows_loop_st_eq Let_def)

text \<open>
  C8: run as steps on the state of the module, the text serializer and the CSV serializer
  return a string that depends on the board alone. From any two states, with whatever
  \<open>settings\<close>, \<open>argv\<close> and left-over accumulator, a call gives the same string; a second
  call on the state the first one left, or a call after a call of the other serializer
  on another board, gives the same string again; a call changes nothing in the state but
  the accumulator; and the string is the one the layouts above describe. On two states
  that differ in every component the board of Scenario 1 gives the text of Scenario 1
  and the rows of Scenario 2.
\<close>

theorem serializers_read_no_hidden_state:
  "fst (parseTextFile_st (title b) (columns b) s) = fst (parseTextFile_st (title b) (columns b) s')
   \<and> fst (parseCSV_st (columns b) s) = fst (parseCSV_st (columns b) s')
   \<and> fst (parseTextFile_st (title b) (columns b) (snd (parseTextFile_st (title b) (columns b) s)))
       = fst (parseTextFile_st (title b) (columns b) s)
   \<and> fst (parseCSV_st (columns b) (snd (parseCSV_st (columns b) s)))
       = fst (parseCSV_st (columns b) s)
   \<and> fst (parseCSV_st (columns b) (snd (parseTextFile_st (title b') (columns b') s)))
       = fst (parseCSV_st (columns b) s)
   \<and> fst (parseTextFile_st (title b) (columns b) (snd (parseCSV_st (columns b') s)))
       = fst (parseTextFile_st (title b) (columns b) s)
   \<and> snd (parseTextFile_st (title b) (columns b) s)
       = s\<lparr>var_parsedText := fst (parseTextFile_st (title b) (columns b) s)\<rparr>
   \<and> snd (parseCSV_st (columns b) s) = s\<lparr>var_parsedText := fst (parseCSV_st (columns b) s)\<rparr>
   \<and> fst (parseTextFile_st (title b) (columns b) s) = parseTextFile (title b) (columns b)
   \<and> fst (parseCSV_st (columns b) s) = parseCSV (columns b)
   \<and> fst (parseTextFile_st ''Sprint 1''
          [\<lparr>columnTitle = ''Went well'',
             messages = [\<lparr>text = ''Shipped X'', voteCount = 3\<rparr>]\<rparr>,
           \<lparr>columnTitle = ''Needs work'', messages = []\<rparr>]
          \<lparr>module_settings_voteCount = 1, module_argv_url = ''a'', module_argv_filePath = ''./'',
           module_argv_fileType = ''txt'', var_parsedText = []\<rparr>)
       = ''Sprint 1 \<newline>\<newline>Went well \<newline>- Shipped X (3) \<newline>\<newline>''
   \<and> fst (parseTextFile_st ''Sprint 1''
          [\<lparr>columnTitle = ''Went well'',
             messages = [\<lparr>text = ''Shipped X'', voteCount = 3\<rparr>]\<rparr>,
           \<lparr>columnTitle = ''Needs work'', messages = []\<rparr>]
          \<lparr>module_settings_voteCount = 7, module_argv_url = ''b'', module_argv_filePath = ''out'',
           module_argv_fileType = ''csv'', var_parsedText = ''left over''\<rparr>)
       = ''Sprint 1 \<newline>\<newline>Went well \<newline>- Shipped X (3) \<newline>\<newline>''
   \<and> fst (parseCSV_st
          [\<lparr>columnTitle = ''Went well'',
             messages = [\<lparr>text = ''Shipped X'', voteCount = 3\<rparr>]\<rparr>,
           \<lparr>columnTitle = ''Needs work'', messages = []\<rparr>]
          \<lparr>module_settings_voteCount = 7, module_argv_url = ''b'', module_argv_filePath = ''out'',
           module_argv_fileType = ''csv'', var_parsedText = ''left over''\<rparr>)
       = ''Went well,Needs work,'' @ [CHR 0x0D, CHR 0x0A]
         @ ''Shipped X (3),,'' @ [CHR 0x0D, CHR 0x0A]"
proof -
  have general:
    "parseTextFile_st t cols st = (parseTextFile t cols, st\<lparr>var_parsedText := parseTextFile t cols\<rparr>)"
    "parseCSV_st cols st = (parseCSV cols, st\<lparr>var_parsedText := parseCSV cols\<rparr>)"
    for t cols st
    by (rule parseTextFile_st_eq, rule parseCSV_st_eq)
  have text1: "fst (parseTextFile_st ''Sprint 1''
          [\<lparr>columnTitle = ''Went well'',
             messages = [\<lparr>text = ''Shipped X'', voteCount = 3\<rparr>]\<rparr>,
           \<lparr>columnTitle = ''Needs work'', messages = []\<rparr>]
          \<lparr>module_settings_voteCount = 1, module_argv_url = ''a'', module_argv_filePath = ''./'',
           module_argv_fileType = ''txt'', var_parsedText = []\<rparr>)
       = ''Sprint 1 \<newline>\<newline>Went well \<newline>- Shipped X (3) \<newline>\<newline>''"
    by (simp add: parseTextFile_st_def number_to_string_def nat_to_string.simps digit_char_def)
  have text2: "fst (parseTextFile_st ''Sprint 1''
          [\<lparr>columnTitle = ''Went well'',
             messages = [\<lparr>text = ''Shipped X'', voteCount = 3\<rparr>]\<rparr>,
           \<lparr>columnTitle = ''Needs work'', messages = []\<rparr>]
          \<lparr>module_settings_voteCount = 7, module_argv_url = ''b'', module_argv_filePath = ''out'',
           module_argv_fileType = ''csv'', var_parsedText = ''left over''\<rparr>)
       = ''Sprint 1 \<newline>\<newline>Went well \<newline>- Shipped X (3) \<newline>\<newline>''"
    by (simp add: parseTextFile_st_def number_to_string_def nat_to_string.simps digit_char_def)
  have csv2: "fst (parseCSV_st
          [\<lparr>columnTitle = ''Went well'',
             messages = [\<lparr>text = ''Shipped X'', voteCount = 3\<rparr>]\<rparr>,
           \<lparr>columnTitle = ''Needs work'', messages = []\<rparr>]
          \<lparr>module_settings_voteCount = 7, module_argv_url = ''b'', module_argv_filePath = ''out'',
           module_argv_fileType = ''csv'', var_parsedText = ''left over''\<rparr>)
       = ''Went well,Needs work,'' @ [CHR 0x0D, CHR 0x0A]
         @ ''Shipped X (3),,'' @ [CHR 0x0D, CHR 0x0A]"
    by (simp add: parseCSV_st_def Math_max_def csv_rows_loop_st.simps array_get_def
        number_to_string_def nat_to_string.simps digit_char_def)
  show ?thesis
    apply (intro conjI)
                apply (simp_all only: text1 text2 csv2)
              apply (simp_all only: general fst_conv snd_conv)
    done
qed

text \<open>
  C10: the CSV branch hands only the columns to \<open>parseCSV\<close>, so changing the title of a
  board leaves the CSV data as it is; and two runs on pages that differ in the title
  element only, when both return, return the same CSV data.
\<close>

theorem csv_ignores_board_title:
  "serialize ''csv'' (b\<lparr>title := t\<rparr>) = serialize ''csv'' b
   \<and> (run vc ''csv'' p = Inr (data, boardTitle)
        \<and> run vc ''csv'' (p\<lparr>boardTitleIdentifier_innerText := other\<rparr>) = Inr (data', boardTitle')
       \<longrightarrow> data' = data)"
  by (auto simp: run_def serialize_def extract_board_def eval_selector_def
      split: sum.splits if_splits option.splits)

theorem csv_ignores_board_title_witness:
  "run 1 ''csv''
     (example_page ''Sprint 1'' [example_column [example_element ''3'' ''Shipped X'']])
     = Inr (''Went well,'' @ [CHR 0x0D, CHR 0x0A] @ ''Shipped X (3),'' @ [CHR 0x0D, CHR 0x0A],
            ''Sprint 1'')
   \<and> run 1 ''csv''
       ((example_page ''Sprint 1'' [example_column [example_element ''3'' ''Shipped X'']])
          \<lparr>boardTitleIdentifier_innerText := Some ''Sprint 2''\<rparr>)
     = Inr (''Went well,'' @ [CHR 0x0D, CHR 0x0A] @ ''Shipped X (3),'' @ [CHR 0x0D, CHR 0x0A],
            ''Sprint 2'')"
  using csv_ignores_board_title
    [where vc = 1
       and p = "example_page ''Sprint 1'' [example_column [example_element ''3'' ''Shipped X'']]"
       and other = "Some ''Sprint 2''" and boardTitle = "''Sprint 1''"
       and boardTitle' = "''Sprint 2''"
       and data = "''Went well,'' @ [CHR 0x0D, CHR 0x0A] @ ''Shipped X (3),'' @ [CHR 0x0D, CHR 0x0A]"
       and data' = "''Went well,'' @ [CHR 0x0D, CHR 0x0A] @ ''Shipped X (3),'' @ [CHR 0x0D, CHR 0x0A]"]
  by (simp add: eval_simps)

section \<open>One column for each column element\<close>

lemma list_all2_map_eq:
  "list_all2 (\<lambda>x y. f x = g y \<and> Q x y) xs ys \<Longrightarrow> map f xs = map g ys"
  by (induction xs ys rule: list_all2_induct) simp_all

lemma extract_board_columns:
  assumes "extract_board vc p = Inr b"
  shows "list_all2
           (\<lambda>el c. map_option trim (columnHeader_innerText el) = Some (columnTitle c)
              \<and> messages_loop vc (messageContainer_elements el) [] = Inr (messages c))
           (messageColumn_elements p) (columns b)"
proof -
  from assms obtain cs where cs: "columns_loop vc (messageColumn_elements p) [] = Inr cs"
    and b: "columns b = cs"
    by (auto simp: extract_board_def split: if_splits sum.splits)
  from columns_loop_columns[OF cs] b show ?thesis
    by simp
qed

lemma parseCSV_header:
  assumes "cols \<noteq> []"
  shows "parseCSV cols =
           concat (map (\<lambda>c. columnTitle c @ '','') cols) @ [CHR 0x0D, CHR 0x0A]
           @ concat (map (spec_csv_row cols) [1..<Suc (spec_max_messages cols)])"
proof -
  have "[0..<Suc (spec_max_messages cols)] = 0 # [1..<Suc (spec_max_messages cols)]"
    by (simp add: upt_conv_Cons)
  then have "spec_toCSV cols =
      spec_csv_row cols 0 @ concat (map (spec_csv_row cols) [1..<Suc (spec_max_messages cols)])"
    by (simp only: spec_toCSV_def list.map concat.simps)
  moreover have "spec_csv_row cols 0 =
      concat (map (\<lambda>c. columnTitle c @ '','') cols) @ [CHR 0x0D, CHR 0x0A]"
    by (simp add: spec_csv_row_def spec_csv_cell_def)
  ultimately show ?thesis
    using parseCSV_nonempty[OF assms] by simp
qed

text \<open>
  C9: an extracted board has one column for each column element of the page, in page
  order and under its trimmed header, whatever the threshold; a column element whose
  message elements are all filtered out gives a column with no message; and every
  column title of a board with a column stands in the first row of the CSV file.
\<close>

theorem one_column_per_column_element:
  assumes "extract_board vc p = Inr b"
  shows "length (columns b) = length (messageColumn_elements p)
    \<and> map (\<lambda>c. Some (columnTitle c)) (columns b) =
        map (\<lambda>el. map_option trim (columnHeader_innerText el)) (messageColumn_elements p)
    \<and> (\<forall>i < length (messageColumn_elements p).
          (\<forall>el \<in> set (messageContainer_elements (messageColumn_elements p ! i)).
              filtered_out vc el) \<longrightarrow>
          messages (columns b ! i) = [])
    \<and> (extract_board vc' p = Inr b' \<longrightarrow>
          map columnTitle (columns b') = map columnTitle (columns b))
    \<and> (columns b \<noteq> [] \<longrightarrow>
          (\<exists>rest. parseCSV (columns b) =
             concat (map (\<lambda>c. columnTitle c @ '','') (columns b)) @ [CHR 0x0D, CHR 0x0A]
             @ rest))"
proof (intro conjI allI impI)
  note rel = extract_board_columns[OF assms]
  show len: "length (columns b) = length (messageColumn_elements p)"
    using list_all2_lengthD[OF rel] by simp
  show titles: "map (\<lambda>c. Some (columnTitle c)) (columns b) =
        map (\<lambda>el. map_option trim (columnHeader_innerText el)) (messageColumn_elements p)"
    using list_all2_map_eq[OF rel] by simp
  {
    fix i
    assume i: "i < length (messageColumn_elements p)"
      and out: "\<forall>el \<in> set (messageContainer_elements (messageColumn_elements p ! i)).
                  filtered_out vc el"
    have "messages_loop vc (messageContainer_elements (messageColumn_elements p ! i)) []
            = Inr (messages (columns b ! i))"
      using list_all2_nthD[OF rel i] by simp
    moreover have "messages_loop vc (messageContainer_elements (messageColumn_elements p ! i)) []
            = Inr []"
      using out by (rule messages_loop_all_filtered_out)
    ultimately show "messages (columns b ! i) = []"
      by simp
  }
  {
    assume other: "extract_board vc' p = Inr b'"
    have "map (\<lambda>c. Some (columnTitle c)) (columns b') =
          map (\<lambda>el. map_option trim (columnHeader_innerText el)) (messageColumn_elements p)"
      using list_all2_map_eq[OF extract_board_columns[OF other]] by simp
    with titles have "map Some (map columnTitle (columns b')) = map Some (map columnTitle (columns b))"
      by (simp add: comp_def)
    then show "map columnTitle (columns b') = map columnTitle (columns b)"
      by (simp only: inj_map_eq_map[OF inj_Some])
  }
  {
    assume "columns b \<noteq> []"
    from parseCSV_header[OF this]
    show "\<exists>rest. parseCSV (columns b) =
             concat (map (\<lambda>c. columnTitle c @ '','') (columns b)) @ [CHR 0x0D, CHR 0x0A]
             @ rest"
      by blast
  }
qed

theorem one_column_per_column_element_witness:
  "extract_board 2
     (example_page ''Sprint 1''
        [example_column [example_element ''1'' ''Too few''],
         example_column [example_element ''2'' ''Enough'']])
   = Inr \<lparr>title = ''Sprint 1'',
          columns = [\<lparr>columnTitle = ''Went well'', messages = []\<rparr>,
                     \<lparr>columnTitle = ''Went well'',
                       messages = [\<lparr>text = ''Enough'', voteCount = 2\<rparr>]\<rparr>]\<rparr>
   \<and> extract_board 5
     (example_page ''Sprint 1''
        [example_column [example_element ''1'' ''Too few''],
         example_column [example_element ''2'' ''Enough'']])
   = Inr \<lparr>title = ''Sprint 1'',
          columns = [\<lparr>columnTitle = ''Went well'', messages = []\<rparr>,
                     \<lparr>columnTitle = ''Went well'', messages = []\<rparr>]\<rparr>
   \<and> filtered_out 2 (example_element ''1'' ''Too few'')
   \<and> (\<exists>rest. parseCSV [\<lparr>columnTitle = ''Went well'', messages = []\<rparr>,
                     \<lparr>columnTitle = ''Went well'',
                       messages = [\<lparr>text = ''Enough'', voteCount = 2\<rparr>]\<rparr>]
         = ''Went well,Went well,'' @ [CHR 0x0D, CHR 0x0A] @ rest)"
  using one_column_per_column_element
    [where vc = 2 and vc' = 5
       and p = "example_page ''Sprint 1''
        [example_column [example_element ''1'' ''Too few''],
         example_column [example_element ''2'' ''Enough'']]"
       and b = "\<lparr>title = ''Sprint 1'',
          columns = [\<lparr>columnTitle = ''Went well'', messages = []\<rparr>,
                     \<lparr>columnTitle = ''Went well'',
                       messages = [\<lparr>text = ''Enough'', voteCount = 2\<rparr>]\<rparr>]\<rparr>"
       and b' = "\<lparr>title = ''Sprint 1'',
          columns = [\<lparr>columnTitle = ''Went well'', messages = []\<rparr>,
                     \<lparr>columnTitle = ''Went well'', messages = []\<rparr>]\<rparr>"]
  by (simp add: eval_simps filtered_out_def)


end
